theory Spec2Isabelle
  imports Main "HOL-Library.Signed_Division"
begin

section \<open>Values shared by the model\<close>

text \<open>
  Go's \<open>error\<close> values. \<open>filepath.SkipDir\<close> is a distinguished value that the walker
  compares by identity; every other error is an operating-system error, known by its
  message. A failing system call of the model yields such a message (\<open>Inl\<close>) and the
  program receives it as \<open>OSError\<close>: the operating system never returns \<open>SkipDir\<close>.
\<close>

datatype error = SkipDir | OSError string

type_synonym 'a sysres = "string + 'a"

fun Error :: "error \<Rightarrow> string" where
  "Error SkipDir = ''skip this directory''"
| "Error (OSError m) = m"

text \<open>A Go computation either panics (with a message) or runs to its end.\<close>

datatype 'a exec = Panic string | Done 'a

section \<open>Library functions the program calls\<close>

subsection \<open>strings.Split with the separator " "\<close>

fun Split :: "string \<Rightarrow> string list" where
  "Split [] = [[]]"
| "Split (c # cs) =
     (if c = CHR '' '' then [] # Split cs
      else (case Split cs of [] \<Rightarrow> [[c]] | w # ws \<Rightarrow> (c # w) # ws))"

subsection \<open>String slicing \<open>s[lo:hi]\<close>\<close>

definition slice :: "string \<Rightarrow> int \<Rightarrow> int \<Rightarrow> string exec" where
  "slice s lo hi =
     (if 0 \<le> lo \<and> lo \<le> hi \<and> hi \<le> int (length s)
      then Done (take (nat (hi - lo)) (drop (nat lo) s))
      else Panic ''slice bounds out of range'')"

subsection \<open>strconv.Atoi on a 64-bit platform\<close>

text \<open>
  \<open>Atoi s\<close> is \<open>ParseInt(s, 10, 0)\<close>: an optional sign, then \<open>ParseUint\<close> on the rest.
  \<open>ParseUint\<close> reads digit by digit; a byte that is not a decimal digit stops it with a
  syntax error and the value 0, a value that leaves 64 bits stops it with a range error
  and the value \<open>2^64 - 1\<close>. The caller in this program drops the error and keeps the value.
\<close>

datatype numerr = ErrSyntax | ErrRange

definition is_digit :: "char \<Rightarrow> bool" where
  "is_digit d = (of_char (CHR ''0'') \<le> (of_char d :: nat) \<and> (of_char d :: nat) \<le> of_char (CHR ''9''))"

definition digit_val :: "char \<Rightarrow> nat" where
  "digit_val d = of_char d - of_char (CHR ''0'')"

definition maxUint64 :: nat where
  "maxUint64 = 2 ^ 64 - 1"

definition cutoff64 :: nat where
  "cutoff64 = maxUint64 div 10 + 1"

fun ParseUint_loop :: "nat \<Rightarrow> string \<Rightarrow> nat \<times> numerr option" where
  "ParseUint_loop n [] = (n, None)"
| "ParseUint_loop n (d # ds) =
     (if \<not> is_digit d then (0, Some ErrSyntax)
      else if n \<ge> cutoff64 then (maxUint64, Some ErrRange)
      else (let n10 = (n * 10) mod 2 ^ 64;
                n1 = (n10 + digit_val d) mod 2 ^ 64
            in if n1 < n10 \<or> n1 > maxUint64 then (maxUint64, Some ErrRange)
               else ParseUint_loop n1 ds))"

definition ParseUint :: "string \<Rightarrow> nat \<times> numerr option" where
  "ParseUint s = (if s = [] then (0, Some ErrSyntax) else ParseUint_loop 0 s)"

definition ParseInt :: "string \<Rightarrow> int \<times> numerr option" where
  "ParseInt s0 =
     (if s0 = [] then (0, Some ErrSyntax)
      else
        let neg = (hd s0 = CHR ''-'');
            s = (if hd s0 = CHR ''+'' \<or> hd s0 = CHR ''-'' then tl s0 else s0);
            (un, err) = ParseUint s
        in if err = Some ErrSyntax then (0, err)
           else
             let cutoff = (2::nat) ^ 63
             in if \<not> neg \<and> un \<ge> cutoff then (int cutoff - 1, Some ErrRange)
                else if neg \<and> un > cutoff then (- int cutoff, Some ErrRange)
                else (if neg then - int un else int un, None))"

definition Atoi :: "string \<Rightarrow> int \<times> numerr option" where
  "Atoi s = ParseInt s"

subsection \<open>64-bit signed arithmetic\<close>

definition wrap64 :: "int \<Rightarrow> int" where
  "wrap64 x = (x + 2 ^ 63) mod 2 ^ 64 - 2 ^ 63"

subsection \<open>fmt.Sprintf with the verb \<open>%02d\<close>\<close>

definition digit_char :: "nat \<Rightarrow> char" where
  "digit_char n = ''0123456789'' ! n"

fun decimal :: "nat \<Rightarrow> string" where
  "decimal n = (if n < 10 then [digit_char n] else decimal (n div 10) @ [digit_char (n mod 10)])"

declare decimal.simps [simp del]

definition zero_pad :: "nat \<Rightarrow> string \<Rightarrow> string" where
  "zero_pad w s = replicate (w - length s) (CHR ''0'') @ s"

definition fmt_02d :: "int \<Rightarrow> string" where
  "fmt_02d x =
     (if x < 0 then CHR ''-'' # zero_pad 1 (decimal (nat (- x)))
      else zero_pad 2 (decimal (nat x)))"

section \<open>The process record\<close>

text \<open>
  \<open>readStat\<close> fills the struct through reflection, by field number. The struct is
  therefore modelled as the vector of its 54 string fields in declaration order; a named
  field is the component at its declaration index.
\<close>

type_synonym process = "string list"

definition field_names :: "string list" where
  "field_names =
    [''Pid'', ''Cmd'', ''State'', ''Ppid'', ''Pgrp'', ''Sid'', ''TTYNr'', ''TTYPgrp'',
     ''Flags'', ''MinFlt'', ''CminFlt'', ''MajFlt'', ''CmajFlt'', ''Utime'', ''Stime'',
     ''Cutime'', ''Cstime'', ''Priority'', ''Nice'', ''NumThreads'', ''ItRealValue'',
     ''StartTime'', ''Vsize'', ''Rss'', ''Rsslim'', ''StartCode'', ''EndCode'',
     ''StartStack'', ''Esp'', ''Eip'', ''Pending'', ''Blocked'', ''Sigign'', ''Sigcatch'',
     ''Wchan'', ''Zero1'', ''Zero2'', ''ExitSignal'', ''TaskCpu'', ''RtPriority'',
     ''Policy'', ''BlkioTicks'', ''Gtime'', ''Cgtime'', ''StartData'', ''EndData'',
     ''StartBrk'', ''ArgStart'', ''ArgEnd'', ''EnvStart'', ''EnvEnd'', ''ExitCode'',
     ''Ctty'', ''Time'']"

definition NumField :: nat where
  "NumField = 54"

definition new_process :: process where
  "new_process = replicate NumField []"

definition Pid :: "process \<Rightarrow> string" where "Pid p = p ! 0"
definition Cmd :: "process \<Rightarrow> string" where "Cmd p = p ! 1"
definition TTYPgrp :: "process \<Rightarrow> string" where "TTYPgrp p = p ! 7"
definition Utime :: "process \<Rightarrow> string" where "Utime p = p ! 13"
definition Stime :: "process \<Rightarrow> string" where "Stime p = p ! 14"
definition Ctty :: "process \<Rightarrow> string" where "Ctty p = p ! 52"
definition Time :: "process \<Rightarrow> string" where "Time p = p ! 53"

definition set_Cmd :: "string \<Rightarrow> process \<Rightarrow> process" where "set_Cmd v p = p[1 := v]"
definition set_Ctty :: "string \<Rightarrow> process \<Rightarrow> process" where "set_Ctty v p = p[52 := v]"
definition set_Time :: "string \<Rightarrow> process \<Rightarrow> process" where "set_Time v p = p[53 := v]"

section \<open>The process namespace\<close>

text \<open>
  What the program reads under \<open>/proc\<close> for one process. Each component is keyed by the
  path element the program joins into the path: \<open>stat_file fs pid\<close> is the result of
  \<open>ReadFile(path.Join(proc, pid, "stat"))\<close>, \<open>fd0_link\<close> of
  \<open>Readlink(path.Join(proc, pid, "fd/0"))\<close> and \<open>cmdline_file\<close> of
  \<open>ReadFile(path.Join(proc, pid, "cmdline"))\<close>.
\<close>

record procfs =
  stat_file :: "string \<Rightarrow> string sysres"
  fd0_link :: "string \<Rightarrow> string sysres"
  cmdline_file :: "string \<Rightarrow> string sysres"

section \<open>Derived attributes\<close>

definition USER_HZ :: int where
  "USER_HZ = 100"

definition getTime :: "process \<Rightarrow> string" where
  "getTime p =
     (let utime = fst (Atoi (Utime p));
          stime = fst (Atoi (Stime p));
          jiffies = wrap64 (utime + stime);
          tsecs = jiffies sdiv USER_HZ;
          secs = tsecs smod 60;
          mins = (tsecs sdiv 60) smod 60;
          hrs = tsecs sdiv 3600
      in fmt_02d hrs @ '':'' @ fmt_02d mins @ '':'' @ fmt_02d secs)"

definition getCtty :: "procfs \<Rightarrow> process \<Rightarrow> string" where
  "getCtty fs p =
     (case fd0_link fs (Pid p) of
        Inl err \<Rightarrow> ''?''
      | Inr tty \<Rightarrow>
          if TTYPgrp p \<noteq> ''-1''
          then (if length tty > 5 \<and> take 5 tty = ''/dev/'' then drop 5 tty else tty)
          else ''?'')"

definition longCmdLine :: "procfs \<Rightarrow> process \<Rightarrow> error + string" where
  "longCmdLine fs p =
     (case cmdline_file fs (Pid p) of Inl m \<Rightarrow> Inl (OSError m) | Inr b \<Rightarrow> Inr b)"

section \<open>Decoding one status record\<close>

text \<open>
  The loop \<open>for i := 0; i < len(fields); i++ { v.Field(i).Set(fields[i]) }\<close>.
  \<open>reflect.Value.Field\<close> panics when the index is not below the number of fields.
\<close>

function set_fields :: "nat \<Rightarrow> string list \<Rightarrow> process \<Rightarrow> process exec" where
  "set_fields i toks p =
     (if i < length toks
      then (if i < NumField then set_fields (i + 1) toks (p[i := toks ! i])
            else Panic ''reflect: Field index out of range'')
      else Done p)"
  by pat_completeness auto
termination
  by (relation "measure (\<lambda>(i, toks, p). length toks - i)") auto

declare set_fields.simps [simp del]

text \<open>\<open>readStat\<close>; the first argument is the global option \<open>flags.x\<close>.\<close>

definition readStat :: "bool \<Rightarrow> procfs \<Rightarrow> string \<Rightarrow> process \<Rightarrow> (process \<times> error option) exec" where
  "readStat flags_x fs pid p =
     (case stat_file fs pid of
        Inl m \<Rightarrow> Done (p, Some (OSError m))
      | Inr b \<Rightarrow>
          (case set_fields 0 (Split b) p of
             Panic m \<Rightarrow> Panic m
           | Done p1 \<Rightarrow>
               let p2 = set_Time (getTime p1) p1;
                   p3 = set_Ctty (getCtty fs p2) p2;
                   cmd = Cmd p3
               in (case slice cmd 1 (int (length cmd) - 1) of
                     Panic m \<Rightarrow> Panic m
                   | Done c \<Rightarrow>
                       let p4 = set_Cmd c p3
                       in if flags_x
                          then (case longCmdLine fs p4 of
                                  Inl err \<Rightarrow> Done (p4, Some err)
                                | Inr cmdline \<Rightarrow>
                                    if cmdline \<noteq> [] then Done (set_Cmd cmdline p4, None)
                                    else Done (p4, None))
                          else Done (p4, None))))"

definition Parse :: "bool \<Rightarrow> procfs \<Rightarrow> string \<Rightarrow> process \<Rightarrow> (process \<times> error option) exec" where
  "Parse flags_x fs pid p =
     (case readStat flags_x fs pid p of
        Panic m \<Rightarrow> Panic m
      | Done (p', Some err) \<Rightarrow> Done (p', Some err)
      | Done (p', None) \<Rightarrow> Done (p', None))"

section \<open>Walking the process namespace\<close>

subsection \<open>The directory tree and filepath.Walk\<close>

text \<open>
  What \<open>os.Lstat\<close> and the directory listing return for a path: a node is a directory or
  not, and listing a directory yields an error or the names in it (in the order the
  walker visits them), each with the result of its own \<open>Lstat\<close>.
\<close>

record FileInfo =
  Name :: string
  IsDir :: bool

datatype fsnode =
  FsNode (node_isDir: bool) (node_readDir: "(string \<times> fsnode sysres) list sysres")

text \<open>
  The callback of a walk: path, file information (absent when \<open>Lstat\<close> failed), the error
  of reaching the path; it works on a state and may panic.
\<close>

type_synonym 's WalkFunc =
  "string \<Rightarrow> FileInfo option \<Rightarrow> error option \<Rightarrow> 's \<Rightarrow> ('s \<times> error option) exec"

text \<open>
  \<open>filepath.walk\<close> and its loop over the names of a directory, as in the Go releases the
  program was written against: the callback's \<open>SkipDir\<close> skips a directory, and for an
  entry that is not a directory it ends the walk of the containing directory and is
  handed on to the caller.
\<close>

function walk :: "'s WalkFunc \<Rightarrow> string \<Rightarrow> string \<Rightarrow> fsnode \<Rightarrow> 's \<Rightarrow> ('s \<times> error option) exec"
  and walk_names ::
    "'s WalkFunc \<Rightarrow> string \<Rightarrow> (string \<times> fsnode sysres) list \<Rightarrow> 's \<Rightarrow> ('s \<times> error option) exec"
where
  "walk walkFn path base (FsNode isdir rd) st =
     (let info = \<lparr>Name = base, IsDir = isdir\<rparr> in
      case walkFn path (Some info) None st of
        Panic m \<Rightarrow> Panic m
      | Done (st1, Some err) \<Rightarrow>
          if isdir \<and> err = SkipDir then Done (st1, None) else Done (st1, Some err)
      | Done (st1, None) \<Rightarrow>
          if \<not> isdir then Done (st1, None)
          else (case rd of
                  Inl m \<Rightarrow> walkFn path (Some info) (Some (OSError m)) st1
                | Inr names \<Rightarrow> walk_names walkFn path names st1))"
| "walk_names walkFn path [] st = Done (st, None)"
| "walk_names walkFn path ((name, l) # rest) st =
     (let filename = path @ ''/'' @ name in
      case l of
        Inl m \<Rightarrow>
          (case walkFn filename None (Some (OSError m)) st of
             Panic m \<Rightarrow> Panic m
           | Done (st1, Some e) \<Rightarrow>
               if e \<noteq> SkipDir then Done (st1, Some e) else walk_names walkFn path rest st1
           | Done (st1, None) \<Rightarrow> walk_names walkFn path rest st1)
      | Inr node \<Rightarrow>
          (case walk walkFn filename name node st of
             Panic m \<Rightarrow> Panic m
           | Done (st1, Some e) \<Rightarrow>
               if \<not> node_isDir node \<or> e \<noteq> SkipDir then Done (st1, Some e)
               else walk_names walkFn path rest st1
           | Done (st1, None) \<Rightarrow> walk_names walkFn path rest st1))"
  by pat_completeness auto
termination
  by (relation "measure (case_sum (\<lambda>(f, path, base, node, st). 2 * size node)
        (\<lambda>(f, path, names, st).
           2 * size_list (size_prod (\<lambda>_. 0) (size_sum (\<lambda>_. 0) size)) names + 1))")
     auto

text \<open>\<open>filepath.Walk\<close>: \<open>Lstat\<close> of the root, then \<open>walk\<close>.\<close>

definition Walk ::
  "string \<Rightarrow> string \<Rightarrow> fsnode sysres \<Rightarrow> 's WalkFunc \<Rightarrow> 's \<Rightarrow> ('s \<times> error option) exec" where
  "Walk root base root_lstat walkFn st =
     (case root_lstat of
        Inl m \<Rightarrow> walkFn root None (Some (OSError m)) st
      | Inr node \<Rightarrow> walk walkFn root base node st)"

subsection \<open>The pattern allProc\<close>

text \<open>
  \<open>regexp.MustCompile("^[0-9]+$").Match\<close>: the pattern is anchored at both ends of the
  text, so it matches when the whole text is one or more bytes of the class \<open>[0-9]\<close>.
\<close>

fun class_plus :: "(char \<Rightarrow> bool) \<Rightarrow> string \<Rightarrow> bool" where
  "class_plus P [] = False"
| "class_plus P [c] = P c"
| "class_plus P (c # d # ds) = (P c \<and> class_plus P (d # ds))"

definition pf_Match :: "string \<Rightarrow> bool" where
  "pf_Match b = class_plus is_digit b"

subsection \<open>LoadTable\<close>

definition proc :: string where
  "proc = ''/proc''"

record ProcessTable =
  table :: "process list"
  maxwidth :: int

text \<open>
  The state of a scan: the table under construction and the lines written with
  \<open>log.Print\<close> and \<open>log.Printf\<close>.
\<close>

type_synonym scan = "ProcessTable \<times> string list"

text \<open>The function literal that \<open>LoadTable\<close> hands to \<open>filepath.Walk\<close>.\<close>

definition LoadTable_walkFn :: "bool \<Rightarrow> procfs \<Rightarrow> scan WalkFunc" where
  "LoadTable_walkFn flags_x fs name fi err st =
     (case err of
        Some e \<Rightarrow> Done ((fst st, snd st @ [name @ '': '' @ Error e]), Some e)
      | None \<Rightarrow>
          if name = proc then Done (st, None)
          else (case fi of
                  None \<Rightarrow> Panic ''invalid memory address or nil pointer dereference''
                | Some info \<Rightarrow>
                    if pf_Match (Name info)
                    then (case Parse flags_x fs (Name info) new_process of
                            Panic m \<Rightarrow> Panic m
                          | Done (p, Some e) \<Rightarrow> Done ((fst st, snd st @ [Error e]), Some e)
                          | Done (p, None) \<Rightarrow>
                              Done (((fst st)\<lparr>table := table (fst st) @ [p]\<rparr>, snd st),
                                    Some SkipDir))
                    else Done (st, Some SkipDir)))"

text \<open>
  The result of the \<open>TIOCGWINSZ\<close> system call on standard input: return code, error
  number (as its message) and the window size written by the kernel.
\<close>

record ioctl_result =
  retCode :: int
  errno :: string
  ws_Row :: nat
  ws_Col :: nat

definition terminalSize :: "ioctl_result \<Rightarrow> (int \<times> int) exec" where
  "terminalSize r = (if retCode r = - 1 then Panic (errno r) else Done (int (ws_Row r), int (ws_Col r)))"

text \<open>
  The part of \<open>LoadTable\<close> after the walk: the terminal width is stored, then the walk's
  error is asked for its message.
\<close>

definition LoadTable_finish ::
  "ioctl_result \<Rightarrow> scan \<Rightarrow> error option \<Rightarrow> (scan \<times> error option) exec" where
  "LoadTable_finish tty st err =
     (case terminalSize tty of
        Panic m \<Rightarrow> Panic m
      | Done (rowSize, columnSize) \<Rightarrow>
          let st' = ((fst st)\<lparr>maxwidth := columnSize\<rparr>, snd st)
          in (case err of
                None \<Rightarrow> Panic ''invalid memory address or nil pointer dereference''
              | Some e \<Rightarrow>
                  if Error e = ''skip this directory'' then Done (st', None)
                  else Done (st', Some e)))"

definition LoadTable ::
  "bool \<Rightarrow> procfs \<Rightarrow> fsnode sysres \<Rightarrow> ioctl_result \<Rightarrow> scan \<Rightarrow> (scan \<times> error option) exec" where
  "LoadTable flags_x fs root_lstat tty st =
     (case Walk proc ''proc'' root_lstat (LoadTable_walkFn flags_x fs) st of
        Panic m \<Rightarrow> Panic m
      | Done (st1, err) \<Rightarrow> LoadTable_finish tty st1 err)"

section \<open>Auxiliary notions for the statements\<close>

text \<open>
  The fields that come from the status record: all but the last two of the struct, which
  the source marks as "extra member (don't parsed from stat)".
\<close>

definition stat_fields :: nat where
  "stat_fields = 52"

text \<open>
  The record as \<open>readStat\<close> has it after the assignment loop and the two derived
  attributes, before the command name is cut: the tokens in the leading fields, the
  remaining fields as they were, then \<open>Time\<close> and \<open>Ctty\<close> set.
\<close>

definition decoded :: "procfs \<Rightarrow> string list \<Rightarrow> process \<Rightarrow> process" where
  "decoded fs toks p =
     (let p1 = toks @ drop (length toks) p;
          p2 = set_Time (getTime p1) p1
      in set_Ctty (getCtty fs p2) p2)"

subsection \<open>Sample inputs\<close>

text \<open>
  A process namespace with three status records: a record of three tokens, a record whose
  command name holds a space, and a record whose command name holds three spaces (55
  tokens in all).
\<close>

definition fs_sh :: procfs where
  "fs_sh =
     \<lparr>stat_file = (\<lambda>pid. if pid = ''1'' then Inr ''1 (sh) S''
                       else if pid = ''42'' then Inr ''42 (a b) R 1''
                       else if pid = ''7'' then Inr ''7 (a b c d) S 0 0 0 0 0 0 0 0 0 0 0 0 0 0 0 0 0 0 0 0 0 0 0 0 0 0 0 0 0 0 0 0 0 0 0 0 0 0 0 0 0 0 0 0 0 0 0 0 0''
                       else Inl ''no such file or directory''),
      fd0_link = (\<lambda>pid. Inl ''no such file or directory''),
      cmdline_file = (\<lambda>pid. if pid = ''1'' then Inr [] else Inl ''no such process'')\<rparr>"

text \<open>
  A process namespace where only the standard-input links resolve: to the bare device
  directory, to a pseudo-terminal and to a socket.
\<close>

definition fs_dev :: procfs where
  "fs_dev =
     \<lparr>stat_file = (\<lambda>pid. Inl ''no such file or directory''),
      fd0_link = (\<lambda>pid. if pid = ''1'' then Inr ''/dev/''
                      else if pid = ''2'' then Inr ''/dev/pts/0''
                      else if pid = ''3'' then Inr ''socket:[4242]''
                      else Inl ''no such file or directory''),
      cmdline_file = (\<lambda>pid. Inl ''no such file or directory'')\<rparr>"

text \<open>A zero-valued process record with the fields \<open>Pid\<close> and \<open>TTYPgrp\<close> set.\<close>

definition proc_with :: "string \<Rightarrow> string \<Rightarrow> process" where
  "proc_with pid pgrp = new_process[0 := pid, 7 := pgrp]"


subsection \<open>Tick fields and the time string\<close>

text \<open>The local variable \<open>jiffies\<close> of \<open>getTime\<close>, and what \<open>getTime\<close> does with it.\<close>

definition jiffies :: "process \<Rightarrow> int" where
  "jiffies p = wrap64 (fst (Atoi (Utime p)) + fst (Atoi (Stime p)))"

definition format_jiffies :: "int \<Rightarrow> string" where
  "format_jiffies j =
     (let tsecs = j sdiv USER_HZ;
          secs = tsecs smod 60;
          mins = (tsecs sdiv 60) smod 60;
          hrs = tsecs sdiv 3600
      in fmt_02d hrs @ '':'' @ fmt_02d mins @ '':'' @ fmt_02d secs)"

text \<open>The value of a string of decimal digits, read from the left.\<close>

definition dec_step :: "nat \<Rightarrow> char \<Rightarrow> nat" where
  "dec_step a d = a * 10 + digit_val d"

definition dec_value :: "string \<Rightarrow> nat" where
  "dec_value ds = foldl dec_step 0 ds"

text \<open>A decimal numeral as \<open>Atoi\<close> accepts it: an optional sign, then one or more digits.\<close>

definition is_numeral :: "string \<Rightarrow> bool" where
  "is_numeral s =
     (case s of
        [] \<Rightarrow> False
      | c # cs \<Rightarrow>
          if c = CHR ''+'' \<or> c = CHR ''-'' then cs \<noteq> [] \<and> list_all is_digit cs
          else list_all is_digit s)"

text \<open>
  What a tick field counts for in the amended claim C6: a string of digits counts as its
  value, any other string as zero. The fields the amended claim speaks about are the
  strings of digits with a value below \<open>2^63\<close> and the strings of at most 19 bytes that
  are no numeral.
\<close>

definition ticks_of :: "string \<Rightarrow> nat" where
  "ticks_of s = (if s \<noteq> [] \<and> list_all is_digit s then dec_value s else 0)"

definition tick_field :: "string \<Rightarrow> bool" where
  "tick_field s =
     ((s \<noteq> [] \<and> list_all is_digit s \<and> dec_value s < 2 ^ 63)
      \<or> (\<not> is_numeral s \<and> length s \<le> 19))"

text \<open>
  The time string of the spec for a number of seconds: hours, minutes and seconds in
  decimal, each with at least two digits.
\<close>

definition two_digits :: "nat \<Rightarrow> string" where
  "two_digits n = (if n < 10 then [CHR ''0'', digit_char n] else decimal n)"

definition hms :: "nat \<Rightarrow> string" where
  "hms t = two_digits (t div 3600) @ '':'' @ two_digits (t div 60 mod 60) @ '':''
           @ two_digits (t mod 60)"

text \<open>A zero-valued process record with the fields \<open>Utime\<close> and \<open>Stime\<close> set.\<close>

definition ticks_rec :: "string \<Rightarrow> string \<Rightarrow> process" where
  "ticks_rec u s = new_process[13 := u, 14 := s]"

subsection \<open>Scans\<close>

text \<open>
  The entries of the names whose fetch succeeds, among those that match the pattern, in
  the order of the names.
\<close>

primrec fetched :: "bool \<Rightarrow> procfs \<Rightarrow> string list \<Rightarrow> process list" where
  "fetched flags_x fs [] = []"
| "fetched flags_x fs (n # ns) =
     (if pf_Match n
      then (case Parse flags_x fs n new_process of
              Done (p, None) \<Rightarrow> p # fetched flags_x fs ns
            | _ \<Rightarrow> fetched flags_x fs ns)
      else fetched flags_x fs ns)"

text \<open>
  A directory entry at which the scan goes on: its \<open>Lstat\<close> succeeds, it is a directory
  and, when its name matches the pattern, its fetch succeeds.
\<close>

definition good_dir :: "bool \<Rightarrow> procfs \<Rightarrow> string \<times> fsnode sysres \<Rightarrow> bool" where
  "good_dir flags_x fs entry =
     (case entry of
        (n, Inl m) \<Rightarrow> False
      | (n, Inr node) \<Rightarrow>
          node_isDir node \<and>
          (\<not> pf_Match n \<or> (case Parse flags_x fs n new_process of Done (p, None) \<Rightarrow> True | _ \<Rightarrow> False)))"

text \<open>
  Sample inputs: a process namespace where only process 2 has a status record, a
  directory and a plain file as \<open>Lstat\<close> reports them, a terminal of 80 columns and the
  empty scan.
\<close>

definition fs_gone :: procfs where
  "fs_gone =
     \<lparr>stat_file = (\<lambda>pid. if pid = ''2'' then Inr ''2 (sh) S'' else Inl ''no such process''),
      fd0_link = (\<lambda>pid. Inl ''no such file or directory''),
      cmdline_file = (\<lambda>pid. Inl ''no such process'')\<rparr>"

definition a_dir :: "fsnode sysres" where
  "a_dir = Inr (FsNode True (Inr []))"


definition tty80 :: ioctl_result where
  "tty80 = \<lparr>retCode = 0, errno = ''0'', ws_Row = 24, ws_Col = 80\<rparr>"

definition scan0 :: scan where
  "scan0 = (\<lparr>table = [], maxwidth = 0\<rparr>, [])"

section \<open>Properties of the library functions\<close>



section \<open>Properties of the process record\<close>

lemma field_names_indices:
  "length field_names = NumField"
  "field_names ! 0 = ''Pid''" "field_names ! 1 = ''Cmd''" "field_names ! 7 = ''TTYPgrp''"
  "field_names ! 13 = ''Utime''" "field_names ! 14 = ''Stime''"
  "field_names ! 51 = ''ExitCode''" "field_names ! 52 = ''Ctty''" "field_names ! 53 = ''Time''"
  by (simp_all add: field_names_def NumField_def)

section \<open>Properties of the field assignment loop\<close>


lemma set_fields_Done:
  "length toks \<le> NumField \<Longrightarrow> i \<le> length toks \<Longrightarrow> length p = NumField \<Longrightarrow>
   set_fields i toks p = Done (take i p @ drop i toks @ drop (length toks) p)"
proof (induction i toks p rule: set_fields.induct)
  case (1 i toks p)
  show ?case
  proof (cases "i < length toks")
    case True
    then have lt: "i < NumField" using 1 by simp
    have ip: "i < length p" using lt 1 by simp
    have "set_fields i toks p = set_fields (i + 1) toks (p[i := toks ! i])"
      using True lt by (subst set_fields.simps) simp
    also have "\<dots> = Done (take (i + 1) (p[i := toks ! i]) @ drop (i + 1) toks
                       @ drop (length toks) (p[i := toks ! i]))"
      using 1 True lt by simp
    also have "take (i + 1) (p[i := toks ! i]) = take i p @ [toks ! i]"
      using ip by (simp add: take_Suc_conv_app_nth)
    also have "drop (length toks) (p[i := toks ! i]) = drop (length toks) p"
      using True by simp
    also have "(take i p @ [toks ! i]) @ drop (i + 1) toks @ drop (length toks) p
               = take i p @ drop i toks @ drop (length toks) p"
      using True by (simp add: Cons_nth_drop_Suc)
    finally show ?thesis .
  next
    case False
    then have "i = length toks" using 1 by simp
    then show ?thesis using 1 by (subst set_fields.simps) simp
  qed
qed

lemma set_fields_0:
  "length toks \<le> NumField \<Longrightarrow> length p = NumField \<Longrightarrow>
   set_fields 0 toks p = Done (toks @ drop (length toks) p)"
  using set_fields_Done [of toks 0 p] by simp

section \<open>Properties of readStat\<close>

lemma slice_strip:
  assumes "2 \<le> length cmd"
  shows "slice cmd 1 (int (length cmd) - 1) = Done (butlast (tl cmd))"
proof -
  have "nat (int (length cmd) - 1 - 1) = length (tl cmd) - 1"
    using assms by simp
  then show ?thesis
    using assms by (simp add: slice_def butlast_conv_take drop_Suc)
qed


lemma length_new_process: "length new_process = NumField"
  by (simp add: new_process_def)

lemma new_process_nth: "i < NumField \<Longrightarrow> new_process ! i = []"
  by (simp add: new_process_def)

lemma set_Cmd_nth: "1 < length p \<Longrightarrow> set_Cmd v p ! i = (if i = 1 then v else p ! i)"
  by (simp add: set_Cmd_def nth_list_update)

lemma length_decoded:
  "length toks \<le> NumField \<Longrightarrow> length p = NumField \<Longrightarrow> length (decoded fs toks p) = NumField"
  by (simp add: decoded_def Let_def set_Time_def set_Ctty_def)

lemma decoded_nth:
  "i < 52 \<Longrightarrow> length toks \<le> NumField \<Longrightarrow> length p = NumField \<Longrightarrow>
   decoded fs toks p ! i = (if i < length toks then toks ! i else p ! i)"
  by (simp add: decoded_def Let_def set_Time_def set_Ctty_def nth_append NumField_def)

lemma readStat_unreadable:
  "stat_file fs pid = Inl m \<Longrightarrow> readStat x fs pid p = Done (p, Some (OSError m))"
  by (simp add: readStat_def)



lemma readStat_decoded:
  assumes "stat_file fs pid = Inr b" "length (Split b) \<le> NumField" "length p = NumField"
    and "2 \<le> length (decoded fs (Split b) p ! 1)"
  shows "readStat x fs pid p =
     (let p3 = decoded fs (Split b) p;
          p4 = set_Cmd (butlast (tl (p3 ! 1))) p3
      in if x
         then (case cmdline_file fs (p4 ! 0) of
                 Inl m \<Rightarrow> Done (p4, Some (OSError m))
               | Inr cmdline \<Rightarrow>
                   if cmdline \<noteq> [] then Done (set_Cmd cmdline p4, None) else Done (p4, None))
         else Done (p4, None))"
  using assms
  by (auto simp add: readStat_def set_fields_0 Let_def Cmd_def Pid_def decoded_def slice_strip
      longCmdLine_def split: sum.splits)

lemma Parse_readStat: "Parse x fs pid p = readStat x fs pid p"
  by (simp add: Parse_def split: exec.splits prod.splits option.splits)

subsection \<open>Records with fewer tokens than fields\<close>

text \<open>
  C1, as the spec states it, fails on the code: a status record of three tokens is decoded
  with success, the 49 status fields without a token left as empty strings.
\<close>

theorem short_record_decodes:
  "stat_file fs_sh ''1'' = Inr ''1 (sh) S'' \<and> length (Split ''1 (sh) S'') = 3
   \<and> readStat False fs_sh ''1'' new_process
       = Done ([''1'', ''sh'', ''S''] @ replicate 49 [] @ [''?'', ''00:00:00''], None)"
  by code_simp

text \<open>
  C1 (amended): a status record with fewer tokens than the 52 status fields is not
  rejected. When it has at least two tokens and its command token at least two
  characters, \<open>readStat\<close> (long command line off) returns no error: every status field
  that has a token holds that token (the command name apart, which is the command token
  without its first and last character), and every status field without a token holds
  the empty string.
\<close>

theorem readStat_short_record:
  assumes "stat_file fs pid = Inr b"
    and "length (Split b) < stat_fields"
    and "2 \<le> length (Split b)"
    and "2 \<le> length (Split b ! 1)"
  shows "\<exists>p'. readStat False fs pid new_process = Done (p', None)
           \<and> (\<forall>i < stat_fields. i \<noteq> 1 \<longrightarrow>
                  p' ! i = (if i < length (Split b) then Split b ! i else []))
           \<and> Cmd p' = butlast (tl (Split b ! 1))"
proof -
  let ?toks = "Split b"
  let ?p3 = "decoded fs ?toks new_process"
  let ?p4 = "set_Cmd (butlast (tl (?p3 ! 1))) ?p3"
  have n: "length ?toks \<le> NumField"
    using assms(2) by (simp add: stat_fields_def NumField_def)
  have len3: "length ?p3 = NumField"
    using n by (simp add: length_decoded length_new_process)
  have c: "?p3 ! 1 = ?toks ! 1"
    using assms(3) n by (simp add: decoded_nth length_new_process)
  have run: "readStat False fs pid new_process = Done (?p4, None)"
    using readStat_decoded [OF assms(1) n length_new_process, of False] assms(4) c
    by (simp add: Let_def)
  have flds: "\<forall>i < stat_fields. i \<noteq> 1 \<longrightarrow>
                ?p4 ! i = (if i < length ?toks then ?toks ! i else [])"
    using n len3
    by (simp add: set_Cmd_nth decoded_nth length_new_process new_process_nth
        stat_fields_def NumField_def)
  have cmd: "Cmd ?p4 = butlast (tl (?toks ! 1))"
    using len3 c by (simp add: Cmd_def set_Cmd_nth NumField_def)
  show ?thesis using run flds cmd by blast
qed

theorem readStat_short_record_witness:
  "\<exists>p'. readStat False fs_sh ''1'' new_process = Done (p', None)
      \<and> p' ! 0 = ''1'' \<and> p' ! 2 = ''S'' \<and> p' ! 3 = [] \<and> p' ! 51 = [] \<and> Cmd p' = ''sh''"
proof -
  have h1: "stat_file fs_sh ''1'' = Inr ''1 (sh) S''" by (simp add: fs_sh_def)
  have h2: "length (Split ''1 (sh) S'') < stat_fields" by (simp add: stat_fields_def)
  have h3: "2 \<le> length (Split ''1 (sh) S'')" by simp
  have h4: "2 \<le> length (Split ''1 (sh) S'' ! 1)" by simp
  from readStat_short_record [OF h1 h2 h3 h4]
  obtain p' where r: "readStat False fs_sh ''1'' new_process = Done (p', None)"
    and f: "\<forall>i < stat_fields. i \<noteq> 1 \<longrightarrow>
              p' ! i = (if i < length (Split ''1 (sh) S'') then Split ''1 (sh) S'' ! i else [])"
    and c: "Cmd p' = butlast (tl (Split ''1 (sh) S'' ! 1))"
    by blast
  have "p' ! 0 = ''1''" "p' ! 2 = ''S''" "p' ! 3 = []" "p' ! 51 = []"
    using f by (simp_all add: stat_fields_def)
  moreover have "Cmd p' = ''sh''" using c by simp
  ultimately show ?thesis using r by blast
qed

subsection \<open>Positional assignment and records with more tokens than fields\<close>







subsection \<open>The command name\<close>




subsection \<open>The long command line\<close>

lemma getCtty_cmdline: "getCtty (fs\<lparr>cmdline_file := g\<rparr>) p = getCtty fs p"
  by (simp add: getCtty_def)

lemma readStat_False_cmdline:
  "readStat False (fs\<lparr>cmdline_file := g\<rparr>) pid p = readStat False fs pid p"
  by (simp add: readStat_def getCtty_cmdline Let_def split: sum.splits exec.splits)

text \<open>
  C8: for a status record that decodes (at most 54 tokens, at least two, a command token
  of at least two characters), a fetch with the long-command-line option returns the
  error of reading the argument-vector record when that read fails, keeps the short
  command name when the argument-vector record is readable and empty, and takes the
  argument vector as command name when it is not empty. Without the option the result of
  the fetch does not depend on the argument-vector record at all.
\<close>

theorem Parse_long_command_line:
  assumes "stat_file fs pid = Inr b"
    and "2 \<le> length (Split b)"
    and "length (Split b) \<le> NumField"
    and "2 \<le> length (Split b ! 1)"
  shows "(\<forall>m. cmdline_file fs (Split b ! 0) = Inl m \<longrightarrow>
            (\<exists>p'. Parse True fs pid new_process = Done (p', Some (OSError m))))
       \<and> (cmdline_file fs (Split b ! 0) = Inr [] \<longrightarrow>
            (\<exists>p'. Parse True fs pid new_process = Done (p', None)
                \<and> Cmd p' = butlast (tl (Split b ! 1))))
       \<and> (\<forall>c. cmdline_file fs (Split b ! 0) = Inr c \<and> c \<noteq> [] \<longrightarrow>
            (\<exists>p'. Parse True fs pid new_process = Done (p', None) \<and> Cmd p' = c))
       \<and> (\<forall>g. Parse False (fs\<lparr>cmdline_file := g\<rparr>) pid new_process
                = Parse False fs pid new_process)"
proof -
  let ?p3 = "decoded fs (Split b) new_process"
  let ?p4 = "set_Cmd (butlast (tl (?p3 ! 1))) ?p3"
  have len3: "length ?p3 = NumField"
    using assms(3) by (simp add: length_decoded length_new_process)
  have c: "?p3 ! 1 = Split b ! 1"
    using assms(2,3) by (simp add: decoded_nth length_new_process)
  have d: "2 \<le> length (?p3 ! 1)"
    using assms(4) c by simp
  have pid4: "?p4 ! 0 = Split b ! 0"
    using assms(2,3) len3
    by (cases "Split b") (simp_all add: set_Cmd_nth decoded_nth length_new_process NumField_def)
  have cmd4: "Cmd ?p4 = butlast (tl (Split b ! 1))"
    using len3 c by (simp add: Cmd_def set_Cmd_nth NumField_def)
  have cmd5: "Cmd (set_Cmd v ?p4) = v" for v
    using len3 by (simp add: Cmd_def set_Cmd_def NumField_def)
  have run: "Parse True fs pid new_process =
       (case cmdline_file fs (Split b ! 0) of
          Inl m \<Rightarrow> Done (?p4, Some (OSError m))
        | Inr cmdline \<Rightarrow>
            if cmdline \<noteq> [] then Done (set_Cmd cmdline ?p4, None) else Done (?p4, None))"
    unfolding Parse_readStat readStat_decoded [OF assms(1,3) length_new_process d] Let_def pid4
    by (simp only: if_True)
  have c1: "\<forall>m. cmdline_file fs (Split b ! 0) = Inl m \<longrightarrow>
            (\<exists>p'. Parse True fs pid new_process = Done (p', Some (OSError m)))"
    using run by simp
  have c2: "cmdline_file fs (Split b ! 0) = Inr [] \<longrightarrow>
            (\<exists>p'. Parse True fs pid new_process = Done (p', None)
                \<and> Cmd p' = butlast (tl (Split b ! 1)))"
    using run cmd4 by simp
  have c3: "\<forall>c. cmdline_file fs (Split b ! 0) = Inr c \<and> c \<noteq> [] \<longrightarrow>
            (\<exists>p'. Parse True fs pid new_process = Done (p', None) \<and> Cmd p' = c)"
    using run cmd5 by simp
  have c4: "\<forall>g. Parse False (fs\<lparr>cmdline_file := g\<rparr>) pid new_process
                = Parse False fs pid new_process"
    by (simp add: Parse_readStat readStat_False_cmdline)
  show ?thesis using c1 c2 c3 c4 by blast
qed

theorem Parse_long_command_line_witness:
  "(\<exists>p'. Parse True fs_sh ''42'' new_process = Done (p', Some (OSError ''no such process'')))
   \<and> (\<exists>p'. Parse True fs_sh ''1'' new_process = Done (p', None) \<and> Cmd p' = ''sh'')
   \<and> Parse False (fs_sh\<lparr>cmdline_file := (\<lambda>pid. Inr ''/bin/sh'')\<rparr>) ''1'' new_process
       = Parse False fs_sh ''1'' new_process"
proof -
  have a1: "stat_file fs_sh ''42'' = Inr ''42 (a b) R 1''" by (simp add: fs_sh_def)
  have a2: "2 \<le> length (Split ''42 (a b) R 1'')" by simp
  have a3: "length (Split ''42 (a b) R 1'') \<le> NumField" by (simp add: NumField_def)
  have a4: "2 \<le> length (Split ''42 (a b) R 1'' ! 1)" by simp
  have a5: "cmdline_file fs_sh (Split ''42 (a b) R 1'' ! 0) = Inl ''no such process''"
    by (simp add: fs_sh_def)
  have b1: "stat_file fs_sh ''1'' = Inr ''1 (sh) S''" by (simp add: fs_sh_def)
  have b2: "2 \<le> length (Split ''1 (sh) S'')" by simp
  have b3: "length (Split ''1 (sh) S'') \<le> NumField" by (simp add: NumField_def)
  have b4: "2 \<le> length (Split ''1 (sh) S'' ! 1)" by simp
  have b5: "cmdline_file fs_sh (Split ''1 (sh) S'' ! 0) = Inr []"
    by (simp add: fs_sh_def)
  have "\<exists>p'. Parse True fs_sh ''42'' new_process = Done (p', Some (OSError ''no such process''))"
    using Parse_long_command_line [OF a1 a2 a3 a4] a5 by blast
  moreover have "\<exists>p'. Parse True fs_sh ''1'' new_process = Done (p', None) \<and> Cmd p' = ''sh''"
    using Parse_long_command_line [OF b1 b2 b3 b4] b5 by simp
  moreover have "Parse False (fs_sh\<lparr>cmdline_file := (\<lambda>pid. Inr ''/bin/sh'')\<rparr>) ''1'' new_process
       = Parse False fs_sh ''1'' new_process"
    using Parse_long_command_line [OF b1 b2 b3 b4] by blast
  ultimately show ?thesis by blast
qed

section \<open>Properties of getCtty\<close>

text \<open>
  C4, as the spec states it, fails on the code: a link target that is exactly \<open>/dev/\<close>
  keeps its prefix, since the code strips the prefix only from a longer target.
\<close>

theorem getCtty_keeps_bare_prefix:
  "fd0_link fs_dev (Pid (proc_with ''1'' ''0'')) = Inr ''/dev/''
   \<and> TTYPgrp (proc_with ''1'' ''0'') = ''0''
   \<and> getCtty fs_dev (proc_with ''1'' ''0'') = ''/dev/''"
  by code_simp

text \<open>
  C4 (amended): \<open>getCtty\<close> returns \<open>?\<close> when the standard-input link cannot be read
  or the terminal-group field is \<open>-1\<close>; otherwise it returns the link target, with a
  leading \<open>/dev/\<close> removed once when something follows that prefix, and unchanged when
  the target does not start with \<open>/dev/\<close> or is \<open>/dev/\<close> itself. The result is always a
  string: a failure of the link resolution is never handed on as an error.
\<close>

theorem getCtty_cases:
  "(\<forall>m. fd0_link fs (Pid p) = Inl m \<longrightarrow> getCtty fs p = ''?'')
   \<and> (TTYPgrp p = ''-1'' \<longrightarrow> getCtty fs p = ''?'')
   \<and> (\<forall>rest. fd0_link fs (Pid p) = Inr (''/dev/'' @ rest) \<and> rest \<noteq> [] \<and> TTYPgrp p \<noteq> ''-1''
         \<longrightarrow> getCtty fs p = rest)
   \<and> (\<forall>tty. fd0_link fs (Pid p) = Inr tty \<and> (\<nexists>rest. rest \<noteq> [] \<and> tty = ''/dev/'' @ rest)
          \<and> TTYPgrp p \<noteq> ''-1''
         \<longrightarrow> getCtty fs p = tty)"
proof -
  have pre: "(length tty > 5 \<and> take 5 tty = ''/dev/'') = (\<exists>rest. rest \<noteq> [] \<and> tty = ''/dev/'' @ rest)"
    for tty :: string
  proof
    assume a: "length tty > 5 \<and> take 5 tty = ''/dev/''"
    then have "tty = ''/dev/'' @ drop 5 tty"
      using append_take_drop_id [of 5 tty] by simp
    moreover have "drop 5 tty \<noteq> []" using a by simp
    ultimately show "\<exists>rest. rest \<noteq> [] \<and> tty = ''/dev/'' @ rest" by blast
  next
    assume "\<exists>rest. rest \<noteq> [] \<and> tty = ''/dev/'' @ rest"
    then show "length tty > 5 \<and> take 5 tty = ''/dev/''" by auto
  qed
  have c1: "\<forall>m. fd0_link fs (Pid p) = Inl m \<longrightarrow> getCtty fs p = ''?''"
    by (simp add: getCtty_def)
  have c2: "TTYPgrp p = ''-1'' \<longrightarrow> getCtty fs p = ''?''"
    by (simp add: getCtty_def split: sum.splits)
  have c3: "\<forall>rest. fd0_link fs (Pid p) = Inr (''/dev/'' @ rest) \<and> rest \<noteq> [] \<and> TTYPgrp p \<noteq> ''-1''
         \<longrightarrow> getCtty fs p = rest"
    by (simp add: getCtty_def)
  have c4: "\<forall>tty. fd0_link fs (Pid p) = Inr tty \<and> (\<nexists>rest. rest \<noteq> [] \<and> tty = ''/dev/'' @ rest)
          \<and> TTYPgrp p \<noteq> ''-1''
         \<longrightarrow> getCtty fs p = tty"
  proof (intro allI impI)
    fix tty
    assume a: "fd0_link fs (Pid p) = Inr tty \<and> (\<nexists>rest. rest \<noteq> [] \<and> tty = ''/dev/'' @ rest)
          \<and> TTYPgrp p \<noteq> ''-1''"
    then have "\<not> (length tty > 5 \<and> take 5 tty = ''/dev/'')"
      using pre [of tty] by blast
    then show "getCtty fs p = tty"
      using a by (auto simp add: getCtty_def)
  qed
  show ?thesis using c1 c2 c3 c4 by blast
qed

theorem getCtty_cases_witness:
  "getCtty fs_dev (proc_with ''9'' ''0'') = ''?''
   \<and> getCtty fs_dev (proc_with ''2'' ''-1'') = ''?''
   \<and> getCtty fs_dev (proc_with ''2'' ''34816'') = ''pts/0''
   \<and> getCtty fs_dev (proc_with ''3'' ''0'') = ''socket:[4242]''"
proof -
  have p: "Pid (proc_with a b) = a" "TTYPgrp (proc_with a b) = b" for a b
    by (simp_all add: proc_with_def Pid_def TTYPgrp_def new_process_def NumField_def)
  have l9: "fd0_link fs_dev ''9'' = Inl ''no such file or directory''"
    and l2: "fd0_link fs_dev ''2'' = Inr (''/dev/'' @ ''pts/0'')"
    and l3: "fd0_link fs_dev ''3'' = Inr ''socket:[4242]''"
    by (simp_all add: fs_dev_def)
  have n3: "\<nexists>rest. rest \<noteq> [] \<and> ''socket:[4242]'' = ''/dev/'' @ rest" by simp
  have "getCtty fs_dev (proc_with ''9'' ''0'') = ''?''"
    using getCtty_cases [of fs_dev "proc_with ''9'' ''0''"] l9 by (simp add: p)
  moreover have "getCtty fs_dev (proc_with ''2'' ''-1'') = ''?''"
    using getCtty_cases [of fs_dev "proc_with ''2'' ''-1''"] by (simp add: p)
  moreover have "getCtty fs_dev (proc_with ''2'' ''34816'') = ''pts/0''"
    using getCtty_cases [of fs_dev "proc_with ''2'' ''34816''"] l2 by (simp add: p)
  moreover have "getCtty fs_dev (proc_with ''3'' ''0'') = ''socket:[4242]''"
    using getCtty_cases [of fs_dev "proc_with ''3'' ''0''"] l3 n3 by (simp add: p)
  ultimately show ?thesis by blast
qed

section \<open>Properties of Atoi\<close>

lemma digit_val_le:
  assumes "is_digit d"
  shows "digit_val d \<le> 9"
proof -
  have "(of_char d :: nat) \<le> 57" using assms by (simp add: is_digit_def)
  then show ?thesis by (simp add: digit_val_def)
qed

lemma is_digit_not_sign: "is_digit d \<Longrightarrow> d \<noteq> CHR ''+'' \<and> d \<noteq> CHR ''-''"
  by (auto simp add: is_digit_def)

lemma foldl_dec_step_ge: "n \<le> foldl dec_step n ds"
proof (induction ds arbitrary: n)
  case Nil
  show ?case by simp
next
  case (Cons d ds)
  have "n \<le> dec_step n d" by (simp add: dec_step_def)
  also have "\<dots> \<le> foldl dec_step (dec_step n d) ds" by (rule Cons.IH)
  finally show ?case by simp
qed

lemma max_cut: "maxUint64 = 18446744073709551615" "cutoff64 = 1844674407370955162"
  "(2::nat) ^ 64 = 18446744073709551616"
  by (simp_all add: maxUint64_def cutoff64_def)

lemma ParseUint_loop_digits:
  "list_all is_digit ds \<Longrightarrow> n < 2 ^ 64 \<Longrightarrow>
   ParseUint_loop n ds =
     (if foldl dec_step n ds < 2 ^ 64 then (foldl dec_step n ds, None)
      else (maxUint64, Some ErrRange))"
proof (induction ds arbitrary: n)
  case Nil
  then show ?case by simp
next
  case (Cons d ds)
  have dg: "is_digit d" and rest: "list_all is_digit ds" using Cons.prems(1) by simp_all
  have v: "digit_val d \<le> 9" using dg by (rule digit_val_le)
  have ge: "dec_step n d \<le> foldl dec_step (dec_step n d) ds" by (rule foldl_dec_step_ge)
  show ?case
  proof (cases "n \<ge> cutoff64")
    case True
    then have "dec_step n d \<ge> 2 ^ 64" by (simp add: dec_step_def max_cut)
    then have "\<not> foldl dec_step (dec_step n d) ds < 2 ^ 64" using ge by linarith
    then show ?thesis using True dg by simp
  next
    case False
    then have n10: "n * 10 < 2 ^ 64" by (simp add: max_cut)
    show ?thesis
    proof (cases "n * 10 + digit_val d < 2 ^ 64")
      case True
      have step: "ParseUint_loop n (d # ds) = ParseUint_loop (dec_step n d) ds"
        using dg False n10 True by (simp add: Let_def dec_step_def maxUint64_def)
      have "dec_step n d < 2 ^ 64" using True by (simp add: dec_step_def)
      from Cons.IH [OF rest this] show ?thesis
        unfolding step by simp
    next
      case ov: False
      have "(n * 10 + digit_val d) mod 2 ^ 64 = n * 10 + digit_val d - 2 ^ 64"
        using ov n10 v by (simp add: mod_if max_cut)
      then have lt: "(n * 10 + digit_val d) mod 2 ^ 64 < n * 10"
        using ov n10 v by (simp add: max_cut)
      have "ParseUint_loop n (d # ds) = (maxUint64, Some ErrRange)"
        using dg False n10 lt by (simp add: Let_def)
      moreover have "\<not> foldl dec_step (dec_step n d) ds < 2 ^ 64"
        using ge ov by (simp add: dec_step_def)
      ultimately show ?thesis by simp
    qed
  qed
qed

lemma ParseUint_loop_syntax:
  "\<not> list_all is_digit s \<Longrightarrow> n < 10 ^ k \<Longrightarrow> k + length s \<le> 19 \<Longrightarrow>
   ParseUint_loop n s = (0, Some ErrSyntax)"
proof (induction s arbitrary: n k)
  case Nil
  then show ?case by simp
next
  case (Cons d ds)
  show ?case
  proof (cases "is_digit d")
    case False
    then show ?thesis by simp
  next
    case True
    have v: "digit_val d \<le> 9" using True by (rule digit_val_le)
    have k18: "k \<le> 18" using Cons.prems(3) by simp
    have "(10::nat) ^ k \<le> 10 ^ 18" using k18 by (intro power_increasing) simp_all
    then have n18: "n < 10 ^ 18" using Cons.prems(2) by linarith
    have nk: "n * 10 + digit_val d < 10 ^ Suc k"
      using Cons.prems(2) v by simp
    have c: "\<not> n \<ge> cutoff64" using n18 by (simp add: max_cut)
    have small: "n * 10 + digit_val d < 2 ^ 64" using n18 v by (simp add: max_cut)
    have step: "ParseUint_loop n (d # ds) = ParseUint_loop (n * 10 + digit_val d) ds"
      using True c small n18 by (simp add: Let_def maxUint64_def)
    have "\<not> list_all is_digit ds" using Cons.prems(1) True by simp
    from Cons.IH [OF this nk] Cons.prems(3) show ?thesis
      unfolding step by simp
  qed
qed

lemma Atoi_digits:
  assumes "s \<noteq> []" "list_all is_digit s"
  shows "Atoi s = (if dec_value s < 2 ^ 63 then (int (dec_value s), None)
                   else (2 ^ 63 - 1, Some ErrRange))"
proof -
  obtain c cs where s: "s = c # cs" using assms(1) by (cases s) auto
  have sg: "hd s \<noteq> CHR ''+''" "hd s \<noteq> CHR ''-''"
    using assms(2) s is_digit_not_sign [of c] by simp_all
  have pu: "ParseUint s = (if dec_value s < 2 ^ 64 then (dec_value s, None)
                           else (maxUint64, Some ErrRange))"
    using assms ParseUint_loop_digits [of s 0] by (simp add: ParseUint_def dec_value_def)
  show ?thesis
  proof (cases "dec_value s < 2 ^ 64")
    case True
    then show ?thesis using assms(1) sg pu
      by (simp add: Atoi_def ParseInt_def Let_def)
  next
    case False
    then have "\<not> dec_value s < 2 ^ 63" by simp
    then show ?thesis using assms(1) sg pu False
      by (simp add: Atoi_def ParseInt_def Let_def max_cut)
  qed
qed

lemma Atoi_syntax:
  assumes "\<not> is_numeral s" "length s \<le> 19"
  shows "Atoi s = (0, Some ErrSyntax)"
proof (cases s)
  case Nil
  then show ?thesis by (simp add: Atoi_def ParseInt_def)
next
  case (Cons c cs)
  show ?thesis
  proof (cases "c = CHR ''+'' \<or> c = CHR ''-''")
    case True
    then have nd: "cs = [] \<or> \<not> list_all is_digit cs"
      using assms(1) Cons by (auto simp add: is_numeral_def)
    have "ParseUint cs = (0, Some ErrSyntax)"
    proof (cases "cs = []")
      case True
      then show ?thesis by (simp add: ParseUint_def)
    next
      case False
      then have "\<not> list_all is_digit cs" using nd by simp
      from ParseUint_loop_syntax [OF this, of 0 0] assms(2) Cons False
      show ?thesis by (simp add: ParseUint_def)
    qed
    then show ?thesis using Cons True
      by (auto simp add: Atoi_def ParseInt_def Let_def)
  next
    case False
    then have nd: "\<not> list_all is_digit s"
      using assms(1) Cons by (simp add: is_numeral_def)
    from ParseUint_loop_syntax [OF this, of 0 0] assms(2) Cons
    have "ParseUint s = (0, Some ErrSyntax)" by (simp add: ParseUint_def)
    then show ?thesis using Cons False
      by (simp add: Atoi_def ParseInt_def Let_def)
  qed
qed

section \<open>Properties of getTime\<close>

lemma getTime_format: "getTime p = format_jiffies (jiffies p)"
  by (simp add: getTime_def format_jiffies_def jiffies_def Let_def)

lemma length_decimal: "1 \<le> length (decimal n) \<and> (10 \<le> n \<longrightarrow> 2 \<le> length (decimal n))"
proof (induction n rule: decimal.induct)
  case (1 n)
  show ?case
  proof (cases "n < 10")
    case True
    then show ?thesis by (subst decimal.simps, subst (2) decimal.simps) simp
  next
    case False
    with 1 show ?thesis by (subst decimal.simps, subst (2) decimal.simps) simp
  qed
qed

lemma digit_char_props: "k < 10 \<Longrightarrow> is_digit (digit_char k) \<and> digit_val (digit_char k) = k"
proof -
  assume "k < 10"
  then have "k \<in> {0, 1, 2, 3, 4, 5, 6, 7, 8, 9}" by auto
  then show ?thesis
    by (auto simp add: digit_char_def is_digit_def digit_val_def)
qed

lemma dec_value_snoc: "dec_value (ds @ [d]) = dec_value ds * 10 + digit_val d"
  by (simp add: dec_value_def dec_step_def)

lemma decimal_roundtrip: "list_all is_digit (decimal n) \<and> dec_value (decimal n) = n"
proof (induction n rule: decimal.induct)
  case (1 n)
  show ?case
  proof (cases "n < 10")
    case True
    then have "decimal n = [digit_char n]" by (subst decimal.simps) simp
    then show ?thesis using digit_char_props [OF True]
      by (simp add: dec_value_def dec_step_def)
  next
    case False
    then have d: "decimal n = decimal (n div 10) @ [digit_char (n mod 10)]"
      by (subst decimal.simps) simp
    have "n mod 10 < 10" by simp
    from digit_char_props [OF this] 1 [OF False] show ?thesis
      unfolding d by (simp add: dec_value_snoc)
  qed
qed

lemma two_digits_props:
  "dec_value (two_digits n) = n \<and> 2 \<le> length (two_digits n) \<and> list_all is_digit (two_digits n)"
proof (cases "n < 10")
  case True
  have z: "is_digit (CHR ''0'')" "digit_val (CHR ''0'') = 0"
    by (simp_all add: is_digit_def digit_val_def)
  show ?thesis using True digit_char_props [OF True] z
    by (simp add: two_digits_def dec_value_def dec_step_def)
next
  case False
  then show ?thesis using decimal_roundtrip [of n] length_decimal [of n]
    by (simp add: two_digits_def)
qed

lemma fmt_02d_nonneg: "0 \<le> x \<Longrightarrow> fmt_02d x = two_digits (nat x)"
proof -
  assume x: "0 \<le> x"
  show ?thesis
  proof (cases "nat x < 10")
    case True
    then have "decimal (nat x) = [digit_char (nat x)]" by (subst decimal.simps) simp
    then show ?thesis using x True by (simp add: fmt_02d_def two_digits_def zero_pad_def)
  next
    case False
    then have "2 \<le> length (decimal (nat x))" using length_decimal [of "nat x"] by simp
    then show ?thesis using x False by (simp add: fmt_02d_def two_digits_def zero_pad_def)
  qed
qed

lemma sdiv_nonneg: "0 \<le> x \<Longrightarrow> 0 < y \<Longrightarrow> (x::int) sdiv y = x div y"
  by (simp add: signed_divide_int_def sgn_if)

lemma smod_nonneg: "0 \<le> x \<Longrightarrow> 0 < y \<Longrightarrow> (x::int) smod y = x mod y"
  by (simp add: signed_modulo_int_def sgn_if)

lemma wrap64_id: "- (2 ^ 63) \<le> x \<Longrightarrow> x < 2 ^ 63 \<Longrightarrow> wrap64 x = x"
  by (simp add: wrap64_def)

lemma format_jiffies_nat: "format_jiffies (int j) = hms (j div 100)"
proof -
  let ?t = "int (j div 100)"
  have t: "int j sdiv USER_HZ = ?t"
    by (simp add: USER_HZ_def sdiv_nonneg zdiv_int)
  have a: "?t sdiv 3600 = int (j div 100 div 3600)"
    by (simp add: sdiv_nonneg zdiv_int)
  have b: "(?t sdiv 60) smod 60 = int (j div 100 div 60 mod 60)"
    by (simp add: sdiv_nonneg smod_nonneg zdiv_int zmod_int)
  have c: "?t smod 60 = int (j div 100 mod 60)"
    by (simp add: smod_nonneg zmod_int)
  show ?thesis
    unfolding format_jiffies_def Let_def t a b c hms_def
    by (simp only: fmt_02d_nonneg of_nat_0_le_iff nat_int)
qed

lemma Atoi_tick_field: "tick_field s \<Longrightarrow> fst (Atoi s) = int (ticks_of s)"
  using Atoi_digits [of s] Atoi_syntax [of s]
  by (auto simp add: tick_field_def ticks_of_def is_numeral_def split: list.splits if_splits
      dest: is_digit_not_sign)

subsection \<open>Evaluation on concrete fields\<close>

lemmas Atoi_eval = Atoi_def ParseInt_def ParseUint_def is_digit_def digit_val_def cutoff64_def
  maxUint64_def Let_def

lemmas format_eval = format_jiffies_def USER_HZ_def signed_divide_int_def signed_modulo_int_def
  fmt_02d_def zero_pad_def decimal.simps digit_char_def Let_def

lemmas tick_eval = tick_field_def ticks_of_def is_numeral_def is_digit_def dec_value_def
  dec_step_def digit_val_def

lemma ticks_rec_fields: "Utime (ticks_rec u s) = u" "Stime (ticks_rec u s) = s"
  by (simp_all add: ticks_rec_def Utime_def Stime_def new_process_def NumField_def)

subsection \<open>Fixed points of the time string\<close>

text \<open>
  C3, as the spec states it, fails on the code: \<open>getTime\<close> divides the tick total by 100
  before it formats, so a tick total of 359 yields \<open>00:00:03\<close> and a tick total of 360000
  yields \<open>01:00:00\<close>, with an hours component of 1.
\<close>

theorem getTime_359_ticks:
  "jiffies (ticks_rec ''359'' ''0'') = 359
   \<and> getTime (ticks_rec ''359'' ''0'') = ''00:00:03''
   \<and> jiffies (ticks_rec ''360000'' ''0'') = 360000
   \<and> getTime (ticks_rec ''360000'' ''0'') = ''01:00:00''"
proof -
  have j: "jiffies (ticks_rec ''359'' ''0'') = 359"
    "jiffies (ticks_rec ''360000'' ''0'') = 360000"
    by (simp_all add: jiffies_def ticks_rec_fields wrap64_def Atoi_eval)
  have f: "format_jiffies 359 = ''00:00:03''" "format_jiffies 360000 = ''01:00:00''"
    by (simp_all add: format_eval)
  show ?thesis by (simp add: getTime_format j f)
qed

text \<open>
  C3 (amended): the time string is a function of the tick total \<open>jiffies\<close> alone. A tick
  total of 0 yields \<open>00:00:00\<close>; a tick total of 35900 (359 seconds) yields \<open>00:05:59\<close>;
  a tick total of 36000000 (360000 seconds) yields \<open>100:00:00\<close>, the hours component
  written in full. A tick total of 359 yields \<open>00:00:03\<close> and one of 360000 yields
  \<open>01:00:00\<close>.
\<close>

theorem getTime_fixed_points:
  "(jiffies p = 0 \<longrightarrow> getTime p = ''00:00:00'')
   \<and> (jiffies p = 359 \<longrightarrow> getTime p = ''00:00:03'')
   \<and> (jiffies p = 35900 \<longrightarrow> getTime p = ''00:05:59'')
   \<and> (jiffies p = 360000 \<longrightarrow> getTime p = ''01:00:00'')
   \<and> (jiffies p = 36000000 \<longrightarrow> getTime p = ''100:00:00'')
   \<and> (jiffies p = jiffies q \<longrightarrow> getTime p = getTime q)"
proof -
  have f0: "format_jiffies 0 = ''00:00:00''" by (simp add: format_eval)
  have f1: "format_jiffies 359 = ''00:00:03''" by (simp add: format_eval)
  have f2: "format_jiffies 35900 = ''00:05:59''" by (simp add: format_eval)
  have f3: "format_jiffies 360000 = ''01:00:00''" by (simp add: format_eval)
  have f4: "format_jiffies 36000000 = ''100:00:00''" by (simp add: format_eval)
  show ?thesis
    unfolding getTime_format using f0 f1 f2 f3 f4 by simp
qed

theorem getTime_fixed_points_witness:
  "getTime (ticks_rec ''0'' ''0'') = ''00:00:00''
   \<and> getTime (ticks_rec ''30000'' ''5900'') = ''00:05:59''
   \<and> getTime (ticks_rec ''36000000'' ''0'') = ''100:00:00''
   \<and> getTime (ticks_rec ''100'' ''259'') = getTime (ticks_rec ''359'' ''0'')"
proof -
  have j0: "jiffies (ticks_rec ''0'' ''0'') = 0"
    by (simp add: jiffies_def ticks_rec_fields wrap64_def Atoi_eval)
  have j1: "jiffies (ticks_rec ''30000'' ''5900'') = 35900"
    by (simp add: jiffies_def ticks_rec_fields wrap64_def Atoi_eval)
  have j2: "jiffies (ticks_rec ''36000000'' ''0'') = 36000000"
    by (simp add: jiffies_def ticks_rec_fields wrap64_def Atoi_eval)
  have j3: "jiffies (ticks_rec ''100'' ''259'') = jiffies (ticks_rec ''359'' ''0'')"
    by (simp add: jiffies_def ticks_rec_fields wrap64_def Atoi_eval)
  show ?thesis
    using getTime_fixed_points [of "ticks_rec ''0'' ''0''"] j0
      getTime_fixed_points [of "ticks_rec ''30000'' ''5900''"] j1
      getTime_fixed_points [of "ticks_rec ''36000000'' ''0''"] j2
      getTime_fixed_points [of "ticks_rec ''100'' ''259''" "ticks_rec ''359'' ''0''"] j3
    by simp
qed

subsection \<open>The time string from the tick fields\<close>

text \<open>
  C6, as the spec states it, fails on the code: a tick field that \<open>Atoi\<close> cannot parse
  because it is out of range does not count as zero. \<open>Atoi\<close> returns the largest integer
  with its range error, \<open>getTime\<close> drops the error and formats that integer.
\<close>

theorem getTime_out_of_range_field:
  "Atoi ''9223372036854775808'' = (9223372036854775807, Some ErrRange)
   \<and> Atoi ''0'' = (0, None)
   \<and> getTime (ticks_rec ''9223372036854775808'' ''0'') = ''25620477880152:09:18''"
proof -
  have a: "Atoi ''9223372036854775808'' = (9223372036854775807, Some ErrRange)"
    "Atoi ''0'' = (0, None)"
    by (simp_all add: Atoi_eval)
  have j: "jiffies (ticks_rec ''9223372036854775808'' ''0'') = 9223372036854775807"
    by (simp add: jiffies_def ticks_rec_fields wrap64_def a)
  have f: "format_jiffies 9223372036854775807 = ''25620477880152:09:18''"
    by (simp add: format_eval)
  show ?thesis by (simp add: getTime_format a j f)
qed

text \<open>
  C6 (amended): each tick field is read with \<open>Atoi\<close> and the error is dropped. A field of
  at most 19 bytes that is no decimal numeral counts as zero; a string of digits below
  \<open>2^63\<close> counts as its value; a string of digits from \<open>2^63\<close> on is not parsed either
  and counts as \<open>2^63 - 1\<close>, not as zero. For two fields of the first two kinds with a sum
  below \<open>2^63\<close>, the result is the sum divided by 100 (integer division), written as
  hours, minutes and seconds, each in decimal with at least two digits and the hours with
  as many digits as they need. The fields \<open>150\<close> and \<open>50\<close> yield \<open>00:00:02\<close>.
\<close>

theorem getTime_tick_fields:
  "(tick_field (Utime p) \<and> tick_field (Stime p)
      \<and> ticks_of (Utime p) + ticks_of (Stime p) < 2 ^ 63
      \<longrightarrow> getTime p = hms ((ticks_of (Utime p) + ticks_of (Stime p)) div 100))
   \<and> (\<forall>s. \<not> is_numeral s \<and> length s \<le> 19 \<longrightarrow> Atoi s = (0, Some ErrSyntax))
   \<and> (\<forall>s. s \<noteq> [] \<and> list_all is_digit s \<and> 2 ^ 63 \<le> dec_value s
          \<longrightarrow> Atoi s = (2 ^ 63 - 1, Some ErrRange))
   \<and> (\<forall>n. dec_value (two_digits n) = n \<and> 2 \<le> length (two_digits n)
          \<and> list_all is_digit (two_digits n))"
proof -
  have main: "getTime p = hms ((ticks_of (Utime p) + ticks_of (Stime p)) div 100)"
    if u: "tick_field (Utime p)" and s: "tick_field (Stime p)"
      and r: "ticks_of (Utime p) + ticks_of (Stime p) < 2 ^ 63"
  proof -
    have "int (ticks_of (Utime p) + ticks_of (Stime p)) < 2 ^ 63"
      using r by (metis of_nat_less_iff of_nat_numeral of_nat_power)
    then have "jiffies p = int (ticks_of (Utime p) + ticks_of (Stime p))"
      using Atoi_tick_field [OF u] Atoi_tick_field [OF s]
      by (simp add: jiffies_def wrap64_id)
    then show ?thesis by (simp only: getTime_format format_jiffies_nat)
  qed
  have sat: "\<forall>s. s \<noteq> [] \<and> list_all is_digit s \<and> 2 ^ 63 \<le> dec_value s
          \<longrightarrow> Atoi s = (2 ^ 63 - 1, Some ErrRange)"
    using Atoi_digits by simp
  show ?thesis
    using main sat Atoi_syntax two_digits_props by blast
qed

theorem getTime_tick_fields_witness:
  "getTime (ticks_rec ''150'' ''50'') = ''00:00:02''
   \<and> getTime (ticks_rec ''15x'' ''250'') = ''00:00:02''"
proof -
  have a: "tick_field (Utime (ticks_rec ''150'' ''50''))"
     "tick_field (Stime (ticks_rec ''150'' ''50''))"
     "ticks_of (Utime (ticks_rec ''150'' ''50'')) + ticks_of (Stime (ticks_rec ''150'' ''50'')) = 200"
    by (simp_all add: ticks_rec_fields tick_eval)
  have b: "tick_field (Utime (ticks_rec ''15x'' ''250''))"
     "tick_field (Stime (ticks_rec ''15x'' ''250''))"
     "ticks_of (Utime (ticks_rec ''15x'' ''250'')) + ticks_of (Stime (ticks_rec ''15x'' ''250'')) = 250"
    by (simp_all add: ticks_rec_fields tick_eval)
  have h: "hms 2 = ''00:00:02''"
    by (simp add: hms_def two_digits_def digit_char_def)
  show ?thesis
    using getTime_tick_fields [of "ticks_rec ''150'' ''50''"] a
      getTime_tick_fields [of "ticks_rec ''15x'' ''250''"] b h
    by simp
qed

section \<open>Properties of LoadTable\<close>

lemma child_path: "proc @ ''/'' @ n \<noteq> proc"
  by simp

lemma Parse_error_OSError:
  "Parse x fs pid p = Done (p', Some e) \<Longrightarrow> \<exists>m. e = OSError m"
  by (auto simp add: Parse_readStat readStat_def longCmdLine_def Let_def
      split: sum.splits exec.splits if_splits)

lemma walkFn_child:
  "path \<noteq> proc \<Longrightarrow>
   LoadTable_walkFn x fs path (Some info) None st =
     (if pf_Match (Name info)
      then (case Parse x fs (Name info) new_process of
              Panic m \<Rightarrow> Panic m
            | Done (p, Some e) \<Rightarrow> Done ((fst st, snd st @ [Error e]), Some e)
            | Done (p, None) \<Rightarrow>
                Done (((fst st)\<lparr>table := table (fst st) @ [p]\<rparr>, snd st), Some SkipDir))
      else Done (st, Some SkipDir))"
  by (simp add: LoadTable_walkFn_def)

lemma walk_good_dir:
  assumes "node_isDir node" "path \<noteq> proc"
    and "\<not> pf_Match n \<or> (case Parse x fs n new_process of Done (p, None) \<Rightarrow> True | _ \<Rightarrow> False)"
  shows "walk (LoadTable_walkFn x fs) path n node (pt, lg) =
           Done ((pt\<lparr>table := table pt @ fetched x fs [n]\<rparr>, lg), None)"
proof -
  obtain rd where node: "node = FsNode True rd" using assms(1) by (cases node) auto
  show ?thesis
  proof (cases "pf_Match n")
    case False
    then show ?thesis using assms(2) by (simp add: node walkFn_child)
  next
    case True
    then obtain p where "Parse x fs n new_process = Done (p, None)"
      using assms(3) by (auto split: exec.splits prod.splits option.splits)
    then show ?thesis using True assms(2) by (simp add: node walkFn_child)
  qed
qed

lemma fetched_append: "fetched x fs (as @ bs) = fetched x fs as @ fetched x fs bs"
  by (induction as) (auto split: exec.splits prod.splits option.splits)

lemma walk_names_good_prefix:
  "list_all (good_dir x fs) pre \<Longrightarrow>
   walk_names (LoadTable_walkFn x fs) proc (pre @ rest) (pt, lg) =
   walk_names (LoadTable_walkFn x fs) proc rest
     (pt\<lparr>table := table pt @ fetched x fs (map fst pre)\<rparr>, lg)"
proof (induction pre arbitrary: pt)
  case Nil
  show ?case by simp
next
  case (Cons entry pre)
  obtain n l where entry: "entry = (n, l)" by (cases entry)
  from Cons.prems obtain node where l: "l = Inr node" and d: "node_isDir node"
    and ok: "\<not> pf_Match n \<or> (case Parse x fs n new_process of Done (p, None) \<Rightarrow> True | _ \<Rightarrow> False)"
    by (auto simp add: good_dir_def entry split: sum.splits)
  have rest: "list_all (good_dir x fs) pre" using Cons.prems by simp
  have w: "walk (LoadTable_walkFn x fs) (proc @ ''/'' @ n) n node (pt, lg) =
           Done ((pt\<lparr>table := table pt @ fetched x fs [n]\<rparr>, lg), None)"
    by (rule walk_good_dir [OF d child_path ok])
  have "walk_names (LoadTable_walkFn x fs) proc ((entry # pre) @ rest) (pt, lg) =
        walk_names (LoadTable_walkFn x fs) proc (pre @ rest)
          (pt\<lparr>table := table pt @ fetched x fs [n]\<rparr>, lg)"
    using w by (simp add: entry l del: fetched.simps)
  also have "\<dots> = walk_names (LoadTable_walkFn x fs) proc rest
          (pt\<lparr>table := table pt @ fetched x fs [n] @ fetched x fs (map fst pre)\<rparr>, lg)"
    using Cons.IH [OF rest, of "pt\<lparr>table := table pt @ fetched x fs [n]\<rparr>"] by simp
  also have "fetched x fs [n] @ fetched x fs (map fst pre) = fetched x fs (map fst (entry # pre))"
    using fetched_append [of x fs "[n]" "map fst pre"] by (simp add: entry del: fetched.simps)
  finally show ?case .
qed

lemma walk_root:
  "walk (LoadTable_walkFn x fs) proc base (FsNode True (Inr names)) st =
   walk_names (LoadTable_walkFn x fs) proc names st"
  by (simp add: LoadTable_walkFn_def)

lemma walk_failed_fetch:
  assumes "pf_Match nb" "Parse x fs nb new_process = Done (pb, Some e)" "path \<noteq> proc"
  shows "walk (LoadTable_walkFn x fs) path nb node (pt, lg) = Done ((pt, lg @ [Error e]), Some e)"
proof -
  obtain isdir rd where node: "node = FsNode isdir rd" by (cases node)
  obtain m where "e = OSError m" using Parse_error_OSError [OF assms(2)] by blast
  then show ?thesis using assms by (simp add: node walkFn_child)
qed

subsection \<open>A failing fetch\<close>

text \<open>
  C2, as the spec states it, fails on the code: the callback returns the error of a
  failing fetch, and the walk ends there. With the entries \<open>1\<close> and \<open>2\<close>, where the fetch
  of \<open>1\<close> fails and the fetch of \<open>2\<close> would succeed, the table stays empty and
  \<open>LoadTable\<close> returns the error.
\<close>

theorem fetch_failure_aborts_scan:
  "Parse False fs_gone ''1'' new_process = Done (new_process, Some (OSError ''no such process''))
   \<and> Parse False fs_gone ''2'' new_process
       = Done ([''2'', ''sh'', ''S''] @ replicate 49 [] @ [''?'', ''00:00:00''], None)
   \<and> LoadTable False fs_gone (Inr (FsNode True (Inr [(''1'', a_dir), (''2'', a_dir)]))) tty80 scan0
       = Done ((\<lparr>table = [], maxwidth = 80\<rparr>, [''no such process'']),
               Some (OSError ''no such process''))"
  by code_simp

text \<open>
  C2 (amended): a failure of the fetch for a numeric name is logged, the name gets no
  entry in the table, and the scan ends at that name: \<open>LoadTable\<close> returns the error of
  the fetch (when the terminal size can be read), and the table holds, once each and in
  order, the entries of the numeric names before the failing one, when all the names
  before it are directories whose fetch succeeds. The names after the failing one are
  not visited.
\<close>

theorem LoadTable_stops_at_failed_fetch:
  assumes "list_all (good_dir x fs) pre"
    and "pf_Match nb"
    and "Parse x fs nb new_process = Done (pb, Some e)"
    and "retCode tty \<noteq> - 1"
  shows "LoadTable x fs (Inr (FsNode True (Inr (pre @ (nb, Inr node) # post)))) tty (pt, lg)
         = Done ((pt\<lparr>table := table pt @ fetched x fs (map fst pre),
                      maxwidth := int (ws_Col tty)\<rparr>, lg @ [Error e]),
                 if Error e = ''skip this directory'' then None else Some e)"
proof -
  let ?pt = "pt\<lparr>table := table pt @ fetched x fs (map fst pre)\<rparr>"
  obtain m where e: "e = OSError m" using Parse_error_OSError [OF assms(3)] by blast
  have w: "walk (LoadTable_walkFn x fs) (proc @ ''/'' @ nb) nb node (?pt, lg)
           = Done ((?pt, lg @ [Error e]), Some e)"
    by (rule walk_failed_fetch [OF assms(2,3) child_path])
  have "walk_names (LoadTable_walkFn x fs) proc (pre @ (nb, Inr node) # post) (pt, lg)
        = walk_names (LoadTable_walkFn x fs) proc ((nb, Inr node) # post) (?pt, lg)"
    by (rule walk_names_good_prefix [OF assms(1)])
  also have "\<dots> = Done ((?pt, lg @ [Error e]), Some e)"
    using w by (simp add: e)
  finally have wn: "walk_names (LoadTable_walkFn x fs) proc (pre @ (nb, Inr node) # post) (pt, lg)
        = Done ((?pt, lg @ [Error e]), Some e)" .
  have "Walk proc ''proc'' (Inr (FsNode True (Inr (pre @ (nb, Inr node) # post))))
                  (LoadTable_walkFn x fs) (pt, lg) = Done ((?pt, lg @ [Error e]), Some e)"
    by (simp only: Walk_def sum.case walk_root wn)
  then show ?thesis
    using assms(4) by (simp add: LoadTable_def LoadTable_finish_def terminalSize_def)
qed

theorem LoadTable_stops_at_failed_fetch_witness:
  "LoadTable False fs_gone
     (Inr (FsNode True (Inr ([(''2'', a_dir), (''acpi'', a_dir)] @ (''3'', a_dir) # [(''4'', a_dir)]))))
     tty80 scan0
   = Done ((\<lparr>table = [[''2'', ''sh'', ''S''] @ replicate 49 [] @ [''?'', ''00:00:00'']],
             maxwidth = 80\<rparr>, [''no such process'']),
           Some (OSError ''no such process''))"
proof -
  have p2: "Parse False fs_gone ''2'' new_process
       = Done ([''2'', ''sh'', ''S''] @ replicate 49 [] @ [''?'', ''00:00:00''], None)"
    by code_simp
  have p3: "Parse False fs_gone ''3'' new_process = Done (new_process, Some (OSError ''no such process''))"
    by code_simp
  have m: "pf_Match ''2''" "\<not> pf_Match ''acpi''" "pf_Match ''3''"
    by (simp_all add: pf_Match_def is_digit_def)
  have g: "list_all (good_dir False fs_gone) [(''2'', a_dir), (''acpi'', a_dir)]"
    using m by (simp add: good_dir_def a_dir_def p2)
  have t: "retCode tty80 \<noteq> - 1" by (simp add: tty80_def)
  obtain nd where nd: "a_dir = Inr nd" by (simp add: a_dir_def)
  show ?thesis
    using LoadTable_stops_at_failed_fetch [OF g m(3) p3 t, of nd "[(''4'', a_dir)]"
        "\<lparr>table = [], maxwidth = 0\<rparr>" "[]"]
    by (simp add: m p2 nd [symmetric] scan0_def tty80_def)
qed

subsection \<open>Which names are process identifiers\<close>

lemma is_digit_iff: "is_digit c \<longleftrightarrow> c \<in> set ''0123456789''"
proof
  assume "is_digit c"
  then have r: "48 \<le> (of_char c :: nat)" "(of_char c :: nat) \<le> 57"
    by (simp_all add: is_digit_def)
  have k: "(of_char c :: nat) = 48 \<or> (of_char c :: nat) = 49 \<or> (of_char c :: nat) = 50
      \<or> (of_char c :: nat) = 51 \<or> (of_char c :: nat) = 52 \<or> (of_char c :: nat) = 53
      \<or> (of_char c :: nat) = 54 \<or> (of_char c :: nat) = 55 \<or> (of_char c :: nat) = 56
      \<or> (of_char c :: nat) = 57"
    using r by arith
  have e: "c = d" if "(of_char c :: nat) = j" "(of_char d :: nat) = j" for d j
    using that by (metis of_char_eq_iff)
  show "c \<in> set ''0123456789''"
    using k e [of 48 "CHR ''0''"] e [of 49 "CHR ''1''"] e [of 50 "CHR ''2''"]
      e [of 51 "CHR ''3''"] e [of 52 "CHR ''4''"] e [of 53 "CHR ''5''"] e [of 54 "CHR ''6''"]
      e [of 55 "CHR ''7''"] e [of 56 "CHR ''8''"] e [of 57 "CHR ''9''"]
    by auto
next
  assume "c \<in> set ''0123456789''"
  then show "is_digit c" by (auto simp add: is_digit_def)
qed

lemma class_plus_iff: "class_plus P b \<longleftrightarrow> b \<noteq> [] \<and> list_all P b"
  by (induction P b rule: class_plus.induct) auto

text \<open>
  C7: a name matches the pattern exactly when it is not empty and each of its characters
  is one of the ten decimal digits; of the names \<open>1\<close>, \<open>42\<close>, \<open>abc\<close> and \<open>7x\<close> exactly
  \<open>1\<close> and \<open>42\<close> match. For an entry below the root that the callback receives without
  error, no fetch is made when the name does not match, and the result is that of the
  fetch of the name when it matches.
\<close>

theorem pf_Match_whole_decimal:
  "(pf_Match n \<longleftrightarrow> n \<noteq> [] \<and> (\<forall>c \<in> set n. c \<in> set ''0123456789''))
   \<and> filter pf_Match [''1'', ''42'', ''abc'', ''7x''] = [''1'', ''42'']
   \<and> (path \<noteq> proc \<and> \<not> pf_Match (Name info)
        \<longrightarrow> LoadTable_walkFn x fs path (Some info) None st = Done (st, Some SkipDir))
   \<and> (path \<noteq> proc \<and> pf_Match (Name info)
        \<longrightarrow> LoadTable_walkFn x fs path (Some info) None st
            = (case Parse x fs (Name info) new_process of
                 Panic m \<Rightarrow> Panic m
               | Done (p, Some e) \<Rightarrow> Done ((fst st, snd st @ [Error e]), Some e)
               | Done (p, None) \<Rightarrow>
                   Done (((fst st)\<lparr>table := table (fst st) @ [p]\<rparr>, snd st), Some SkipDir)))"
proof -
  have a: "pf_Match n \<longleftrightarrow> n \<noteq> [] \<and> (\<forall>c \<in> set n. c \<in> set ''0123456789'')"
    unfolding pf_Match_def class_plus_iff list_all_iff is_digit_iff ..
  have b: "filter pf_Match [''1'', ''42'', ''abc'', ''7x''] = [''1'', ''42'']"
    by (simp add: pf_Match_def is_digit_def)
  show ?thesis using a b by (simp add: walkFn_child)
qed

theorem pf_Match_whole_decimal_witness:
  "pf_Match ''42'' \<and> pf_Match ''007'' \<and> \<not> pf_Match ''7x'' \<and> \<not> pf_Match ''+1''
   \<and> \<not> pf_Match ''-1'' \<and> \<not> pf_Match []
   \<and> LoadTable_walkFn False fs_gone ''/proc/7x'' (Some \<lparr>Name = ''7x'', IsDir = True\<rparr>) None scan0
       = Done (scan0, Some SkipDir)
   \<and> LoadTable_walkFn False fs_gone ''/proc/2'' (Some \<lparr>Name = ''2'', IsDir = True\<rparr>) None scan0
       = Done ((\<lparr>table = [[''2'', ''sh'', ''S''] @ replicate 49 [] @ [''?'', ''00:00:00'']],
                 maxwidth = 0\<rparr>, []), Some SkipDir)"
proof -
  have p2: "Parse False fs_gone ''2'' new_process
       = Done ([''2'', ''sh'', ''S''] @ replicate 49 [] @ [''?'', ''00:00:00''], None)"
    by code_simp
  have ne: "''/proc/7x'' \<noteq> proc" "''/proc/2'' \<noteq> proc" by (simp_all add: proc_def)
  have m: "pf_Match ''42''" "pf_Match ''007''" "\<not> pf_Match ''7x''" "\<not> pf_Match ''+1''"
    "\<not> pf_Match ''-1''" "\<not> pf_Match []" "pf_Match ''2''"
    using pf_Match_whole_decimal [of "''42''"] pf_Match_whole_decimal [of "''007''"]
      pf_Match_whole_decimal [of "''7x''"] pf_Match_whole_decimal [of "''+1''"]
      pf_Match_whole_decimal [of "''-1''"] pf_Match_whole_decimal [of "[]"]
      pf_Match_whole_decimal [of "''2''"]
    by simp_all
  have w1: "LoadTable_walkFn False fs_gone ''/proc/7x'' (Some \<lparr>Name = ''7x'', IsDir = True\<rparr>) None scan0
       = Done (scan0, Some SkipDir)"
    using pf_Match_whole_decimal [of _ "''/proc/7x''" "\<lparr>Name = ''7x'', IsDir = True\<rparr>" False fs_gone scan0]
      ne m by simp
  have w2: "LoadTable_walkFn False fs_gone ''/proc/2'' (Some \<lparr>Name = ''2'', IsDir = True\<rparr>) None scan0
       = Done ((\<lparr>table = [[''2'', ''sh'', ''S''] @ replicate 49 [] @ [''?'', ''00:00:00'']],
                 maxwidth = 0\<rparr>, []), Some SkipDir)"
    using pf_Match_whole_decimal [of _ "''/proc/2''" "\<lparr>Name = ''2'', IsDir = True\<rparr>" False fs_gone scan0]
      ne m by (simp add: p2 scan0_def)
  show ?thesis using m w1 w2 by simp
qed

subsection \<open>The error of the walk\<close>



end
